theory Spec2Isabelle
  imports Main
begin

section \<open>The participant gateway (ws-server): data model\<close>

text \<open>
  A connection is an opaque handle of the transport; only handle equality is used.
  Participant and session identifiers are the strings read from the cookies.
\<close>

type_synonym conn = nat
type_synonym participant_id = string
type_synonym session_id = string

datatype role = GameMaster | Player

text \<open>Registry entries are the arrays \<open>[ws, participantId, sessionId]\<close> and
  \<open>[ws, participantId, sessionId, role]\<close> that the server destructures.\<close>

type_synonym lobby_entry = "conn \<times> participant_id \<times> session_id"
type_synonym hall_entry = "conn \<times> participant_id \<times> session_id \<times> role"

subsection \<open>Protocol messages (constructors of the external message factory)\<close>

datatype state_msg =
    SessionJoin session_id participant_id
  | SessionLeave session_id participant_id
  | ParticipantInput session_id participant_id string nat
  | ParticipantCreated string
  | Checkin

datatype ui_msg =
    ParticipantLeft session_id participant_id
  | ParticipantJoined session_id participant_id string
  | SolutionEvaluated string string bool nat
  | ParticipantSolution participant_id bool nat nat

datatype client_message = Solution string | OtherClientMessage string

record evaluation =
  ev_participantId :: participant_id
  ev_sessionId :: session_id
  ev_result :: string
  ev_error :: string
  ev_correct :: bool
  ev_time :: nat
  ev_length :: nat

datatype server_message =
    ParticipantJoinedMsg participant_id session_id role
  | SolutionEvaluatedMsg evaluation
  | CreateParticipantMsg string
  | OtherServerMessage string

subsection \<open>Observable effects and the server state\<close>

text \<open>
  Every call that leaves the process is appended to one trace, in program order:
  \<open>ws.removeAllListeners()\<close>, \<open>ws.close(code)\<close>, a \<open>ws.send\<close> that returned,
  \<open>phoenix.send\<close>, and the three log levels.
\<close>

datatype effect =
    RemoveAllListeners conn
  | Close conn nat
  | Send conn ui_msg
  | PhoenixSend state_msg
  | Warn string
  | LogError string
  | Log string

text \<open>The two closures registered with \<open>ws.once('close', ...)\<close>, with the variables
  they capture.\<close>

datatype close_handler =
    LobbyClose conn participant_id session_id
  | HallClose conn participant_id session_id

text \<open>A settled promise.\<close>

datatype 'a settled = Fulfilled 'a | Rejected

text \<open>
  The state of the process: the two registries; per connection, the \<open>close\<close> listeners
  in order of registration and the number of \<open>onClientMessage\<close> listeners; the promotions
  whose profile continuation has not run yet and the number of user creations under way;
  the transport's behaviour (the connections on which \<open>send\<close> throws); the trace.
\<close>

record state =
  lobby :: "lobby_entry list"
  hall :: "hall_entry list"
  close_listeners :: "conn \<Rightarrow> close_handler list"
  message_listeners :: "conn \<Rightarrow> nat"
  awaiting_profiles :: "(participant_id \<times> session_id) list"
  awaiting_users :: nat
  send_throws :: "conn \<Rightarrow> bool"
  effects :: "effect list"

text \<open>A call either returns or lets an exception escape; the mutations made before the
  exception stay.\<close>

datatype outcome = Returned state | Threw state

fun state_of :: "outcome \<Rightarrow> state" where
  "state_of (Returned st) = st"
| "state_of (Threw st) = st"

fun threw :: "outcome \<Rightarrow> bool" where
  "threw (Returned st) = False"
| "threw (Threw st) = True"

definition initial :: "(conn \<Rightarrow> bool) \<Rightarrow> state" where
  "initial thr = \<lparr> lobby = [], hall = [], close_listeners = (\<lambda>c. []),
     message_listeners = (\<lambda>c. 0), awaiting_profiles = [], awaiting_users = 0,
     send_throws = thr, effects = [] \<rparr>"

definition emit :: "effect \<Rightarrow> state \<Rightarrow> state" where
  "emit e st = st\<lparr>effects := effects st @ [e]\<rparr>"

definition warn :: "string \<Rightarrow> state \<Rightarrow> state" where
  "warn txt st = emit (Warn txt) st"

definition phoenix_send :: "state_msg \<Rightarrow> state \<Rightarrow> state" where
  "phoenix_send m st = emit (PhoenixSend m) st"

section \<open>The registries\<close>

text \<open>Modelled from the spec: the module \<open>./lobby\<close> (\<open>createLobby\<close>) is not among the
  sources. Section 4.1: lookup returns the first entry matching the supplied non-null
  fields, where the connection alone is sufficient and participantId with sessionId
  alone is sufficient.\<close>

fun lobby_matches ::
  "conn option \<Rightarrow> participant_id option \<Rightarrow> session_id option \<Rightarrow> lobby_entry \<Rightarrow> bool" where
  "lobby_matches c p s (c', p', s') = (c = Some c' \<or> (p = Some p' \<and> s = Some s'))"

text \<open>Modelled from the spec: \<open>lobby.get\<close>, section 4.1 \<open>lookup\<close>; none when nothing
  matches.\<close>

definition lobby_get ::
  "lobby_entry list \<Rightarrow> conn option \<Rightarrow> participant_id option \<Rightarrow> session_id option
    \<Rightarrow> lobby_entry option" where
  "lobby_get L c p s = find (lobby_matches c p s) L"

text \<open>Modelled from the spec: \<open>lobby.add\<close>, section 4.1 \<open>add\<close>; inserts an entry with no
  uniqueness check.\<close>

definition lobby_add ::
  "lobby_entry list \<Rightarrow> conn \<Rightarrow> participant_id \<Rightarrow> session_id \<Rightarrow> lobby_entry list" where
  "lobby_add L c p s = L @ [(c, p, s)]"

text \<open>Modelled from the spec: \<open>lobby.remove\<close>, section 4.1 \<open>remove\<close>; deletes the matching
  entry and does nothing when there is none.\<close>

definition lobby_remove ::
  "lobby_entry list \<Rightarrow> conn \<Rightarrow> participant_id option \<Rightarrow> session_id option
    \<Rightarrow> lobby_entry list" where
  "lobby_remove L c p s =
     (case lobby_get L (Some c) p s of None \<Rightarrow> L | Some e \<Rightarrow> remove1 e L)"

text \<open>Modelled from the spec: the module \<open>./hall\<close> (\<open>createHall\<close>) is not among the
  sources. Section 4.2 gives it the shape of the lobby with the role added to the
  tuple; sections 3 and 4.3 make \<open>(participantId, sessionId)\<close> the identity under which
  an existing entry is found, whatever its role.\<close>

fun hall_matches ::
  "conn option \<Rightarrow> participant_id option \<Rightarrow> session_id option \<Rightarrow> hall_entry \<Rightarrow> bool" where
  "hall_matches c p s (c', p', s', r') = (c = Some c' \<or> (p = Some p' \<and> s = Some s'))"

text \<open>Modelled from the spec: \<open>hall.get\<close>, section 4.2.\<close>

definition hall_get ::
  "hall_entry list \<Rightarrow> conn option \<Rightarrow> participant_id option \<Rightarrow> session_id option
    \<Rightarrow> role option \<Rightarrow> hall_entry option" where
  "hall_get H c p s r = find (hall_matches c p s) H"

text \<open>Modelled from the spec: \<open>hall.add\<close>, section 4.2.\<close>

definition hall_add ::
  "hall_entry list \<Rightarrow> conn \<Rightarrow> participant_id \<Rightarrow> session_id \<Rightarrow> role \<Rightarrow> hall_entry list" where
  "hall_add H c p s r = H @ [(c, p, s, r)]"

text \<open>Modelled from the spec: \<open>hall.remove\<close>, section 4.2.\<close>

definition hall_remove ::
  "hall_entry list \<Rightarrow> conn \<Rightarrow> participant_id option \<Rightarrow> session_id option
    \<Rightarrow> role option \<Rightarrow> hall_entry list" where
  "hall_remove H c p s r =
     (case hall_get H (Some c) p s r of None \<Rightarrow> H | Some e \<Rightarrow> remove1 e H)"

text \<open>Modelled from the spec: \<open>listBySessionAndRole\<close> of section 4.2, the entries of one
  session and one role.\<close>

definition hall_list :: "hall_entry list \<Rightarrow> session_id \<Rightarrow> role \<Rightarrow> hall_entry list" where
  "hall_list H s r = filter (\<lambda>e. fst (snd (snd e)) = s \<and> snd (snd (snd e)) = r) H"

text \<open>Modelled from the spec: \<open>hall.getMasters\<close>, the game-masters of a session.\<close>

definition hall_getMasters :: "hall_entry list \<Rightarrow> session_id \<Rightarrow> hall_entry list" where
  "hall_getMasters H s = hall_list H s GameMaster"


section \<open>Authentication\<close>

text \<open>A cookie value is a string or undefined; the empty string is falsy as well.\<close>

fun truthy :: "string option \<Rightarrow> bool" where
  "truthy None = False"
| "truthy (Some v) = (v \<noteq> [])"

definition verifyAuth ::
  "string option \<Rightarrow> string option \<Rightarrow> (participant_id \<times> session_id) settled" where
  "verifyAuth uid sessionId =
     (case (uid, sessionId) of
        (Some u, Some s) \<Rightarrow>
          (if truthy uid \<and> truthy sessionId then Fulfilled (u, s) else Rejected)
      | _ \<Rightarrow> Rejected)"

section \<open>Connection management\<close>

definition clearConnection :: "conn \<Rightarrow> state \<Rightarrow> state" where
  "clearConnection ws st =
     emit (RemoveAllListeners ws)
       (st\<lparr>close_listeners := (close_listeners st)(ws := []),
           message_listeners := (message_listeners st)(ws := 0)\<rparr>)"

definition rejectConnection :: "conn \<Rightarrow> state \<Rightarrow> state" where
  "rejectConnection ws st = emit (Close ws 4500) (clearConnection ws st)"

section \<open>Send helpers\<close>

definition ws_send :: "conn \<Rightarrow> ui_msg \<Rightarrow> state \<Rightarrow> outcome" where
  "ws_send ws m st = (if send_throws st ws then Threw st else Returned (emit (Send ws m) st))"

text \<open>\<open>forEach\<close> over the entries: an exception of one callback ends the iteration.\<close>

fun forEach_send :: "conn list \<Rightarrow> ui_msg \<Rightarrow> state \<Rightarrow> outcome" where
  "forEach_send [] m st = Returned st"
| "forEach_send (ws # rest) m st =
     (case ws_send ws m st of
        Threw st' \<Rightarrow> Threw st'
      | Returned st' \<Rightarrow> forEach_send rest m st')"

definition sendToGameMasters :: "session_id \<Rightarrow> ui_msg \<Rightarrow> state \<Rightarrow> outcome" where
  "sendToGameMasters sessionId m st =
     forEach_send (map fst (hall_getMasters (hall st) sessionId)) m st"



definition sendToPlayer :: "conn \<Rightarrow> ui_msg \<Rightarrow> state \<Rightarrow> outcome" where
  "sendToPlayer ws m st = ws_send ws m st"

section \<open>Client messages\<close>

definition handleClientMessage :: "conn \<Rightarrow> client_message \<Rightarrow> nat \<Rightarrow> state \<Rightarrow> state" where
  "handleClientMessage ws message now st =
     (case hall_get (hall st) (Some ws) None None None of
        None \<Rightarrow> warn ''Message from unknown client'' st
      | Some (ws', participantId, sessionId, r) \<Rightarrow>
          (case message of
             Solution input \<Rightarrow>
               phoenix_send (ParticipantInput sessionId participantId input now) st
           | OtherClientMessage name \<Rightarrow> warn ''Unknown message from client'' st))"

section \<open>Session state management\<close>

definition removeFromLobby ::
  "conn \<Rightarrow> participant_id option \<Rightarrow> session_id option \<Rightarrow> state \<Rightarrow> state" where
  "removeFromLobby ws participantId sessionId st =
     rejectConnection ws (st\<lparr>lobby := lobby_remove (lobby st) ws participantId sessionId\<rparr>)"

definition addToLobby :: "conn \<Rightarrow> participant_id \<Rightarrow> session_id \<Rightarrow> state \<Rightarrow> state" where
  "addToLobby ws participantId sessionId st =
     (let st1 = (case lobby_get (lobby st) (Some ws) (Some participantId) (Some sessionId) of
                   None \<Rightarrow> st
                 | Some (ws', p', s') \<Rightarrow> removeFromLobby ws' (Some p') (Some s') st);
          st2 = st1\<lparr>lobby := lobby_add (lobby st1) ws participantId sessionId\<rparr>
      in st2\<lparr>close_listeners := (close_listeners st2)
               (ws := close_listeners st2 ws @ [LobbyClose ws participantId sessionId])\<rparr>)"

definition removeFromHall ::
  "conn \<Rightarrow> participant_id option \<Rightarrow> session_id option \<Rightarrow> role option \<Rightarrow> state \<Rightarrow> state" where
  "removeFromHall ws participantId sessionId r st =
     rejectConnection ws (st\<lparr>hall := hall_remove (hall st) ws participantId sessionId r\<rparr>)"

definition addToHall :: "conn \<Rightarrow> participant_id \<Rightarrow> session_id \<Rightarrow> role \<Rightarrow> state \<Rightarrow> state" where
  "addToHall ws participantId sessionId r st =
     (let st1 = (case hall_get (hall st) (Some ws) (Some participantId) (Some sessionId) (Some r) of
                   None \<Rightarrow> st
                 | Some (ws', p', s', r') \<Rightarrow>
                     removeFromHall ws' (Some p') (Some s') (Some r') st);
          st2 = st1\<lparr>hall := hall_add (hall st1) ws participantId sessionId r\<rparr>
      in st2\<lparr>close_listeners := (close_listeners st2)
               (ws := close_listeners st2 ws @ [HallClose ws participantId sessionId]),
             message_listeners := (message_listeners st2)
               (ws := Suc (message_listeners st2 ws))\<rparr>)"

section \<open>Transport events\<close>

text \<open>The bodies of the two close handlers.\<close>

fun run_close_handler :: "close_handler \<Rightarrow> state \<Rightarrow> outcome" where
  "run_close_handler (LobbyClose ws participantId sessionId) st =
     Returned (phoenix_send (SessionLeave sessionId participantId)
                 (removeFromLobby ws None None st))"
| "run_close_handler (HallClose ws participantId sessionId) st =
     sendToGameMasters sessionId (ParticipantLeft sessionId participantId)
       (phoenix_send (SessionLeave sessionId participantId)
          (removeFromHall ws None None None st))"

text \<open>
  The close event of a connection: the listeners registered at the time of the event are
  called in order; a \<open>once\<close> listener is taken off the connection before it is called.
\<close>

fun emit_close :: "close_handler list \<Rightarrow> conn \<Rightarrow> state \<Rightarrow> outcome" where
  "emit_close [] ws st = Returned st"
| "emit_close (h # hs) ws st =
     (case run_close_handler h
             (st\<lparr>close_listeners := (close_listeners st)
                   (ws := remove1 h (close_listeners st ws))\<rparr>) of
        Threw st' \<Rightarrow> Threw st'
      | Returned st' \<Rightarrow> emit_close hs ws st')"

definition fireClose :: "conn \<Rightarrow> state \<Rightarrow> outcome" where
  "fireClose ws st = emit_close (close_listeners st ws) ws st"

text \<open>The message event: every registered \<open>onClientMessage\<close> listener handles the parsed
  message.\<close>

definition fireMessage :: "conn \<Rightarrow> client_message \<Rightarrow> nat \<Rightarrow> state \<Rightarrow> state" where
  "fireMessage ws message now st =
     ((handleClientMessage ws message now) ^^ (message_listeners st ws)) st"

section \<open>Profiles\<close>

record profile =
  displayName :: string

definition DEFAULT_PROFILE :: profile where
  "DEFAULT_PROFILE = \<lparr> displayName = ''Unknown'' \<rparr>"

text \<open>What the profile loader's promise resolves with: a falsy value, a truthy value that
  is not an array, or an array whose elements are profiles or falsy.\<close>

datatype loaded_value = Falsy | NonArray | ProfileArray "profile option list"

fun then_profiles :: "loaded_value \<Rightarrow> profile list settled" where
  "then_profiles Falsy = Rejected"
| "then_profiles NonArray = Rejected"
| "then_profiles (ProfileArray profiles) =
     Fulfilled (map (\<lambda>profile. case profile of None \<Rightarrow> DEFAULT_PROFILE | Some q \<Rightarrow> q) profiles)"

definition getProfiles ::
  "loaded_value settled \<Rightarrow> participant_id list \<Rightarrow> state \<Rightarrow> profile list settled \<times> state" where
  "getProfiles loadProfiles participantIds st =
     (case (case loadProfiles of Rejected \<Rightarrow> Rejected | Fulfilled v \<Rightarrow> then_profiles v) of
        Fulfilled profiles \<Rightarrow> (Fulfilled profiles, st)
      | Rejected \<Rightarrow>
          (Fulfilled (replicate (length participantIds) DEFAULT_PROFILE),
           warn ''Error in profile loading'' st))"

section \<open>Message handlers\<close>

definition participantIdentified ::
  "participant_id \<Rightarrow> session_id \<Rightarrow> role \<Rightarrow> state \<Rightarrow> state" where
  "participantIdentified participantId sessionId r st =
     (case lobby_get (lobby st) None (Some participantId) (Some sessionId) of
        None \<Rightarrow> warn ''Unknown participant identification'' st
      | Some (ws, p', s') \<Rightarrow>
          (let st1 = st\<lparr>lobby := lobby_remove (lobby st) ws (Some p') (Some s')\<rparr>;
               st2 = clearConnection ws st1;
               st3 = addToHall ws p' s' r st2
           in st3\<lparr>awaiting_profiles := awaiting_profiles st3 @ [(participantId, sessionId)]\<rparr>))"

text \<open>The continuation of \<open>getProfiles([participantId]).then(...)\<close>, run when the loader's
  promise has settled; \<open>profile.displayName\<close> of an empty result throws.\<close>

definition profilesLoaded ::
  "participant_id \<Rightarrow> session_id \<Rightarrow> loaded_value settled \<Rightarrow> state \<Rightarrow> outcome" where
  "profilesLoaded participantId sessionId loadProfiles st =
     (case getProfiles loadProfiles [participantId] st of
        (Rejected, st1) \<Rightarrow> Threw st1
      | (Fulfilled [], st1) \<Rightarrow> Threw (warn ''Can not get profile for participant'' st1)
      | (Fulfilled (profile # rest), st1) \<Rightarrow>
          sendToGameMasters sessionId
            (ParticipantJoined sessionId participantId (displayName profile)) st1)"

definition solutionEvaluated :: "evaluation \<Rightarrow> state \<Rightarrow> outcome" where
  "solutionEvaluated message st =
     (case hall_get (hall st) None (Some (ev_participantId message))
             (Some (ev_sessionId message)) None of
        None \<Rightarrow> Returned (warn ''Unknown participant solution evaluation'' st)
      | Some (ws, p', s', r') \<Rightarrow>
          (case sendToPlayer ws
                  (SolutionEvaluated (ev_result message) (ev_error message)
                     (ev_correct message) (ev_time message)) st of
             Threw st' \<Rightarrow> Threw st'
           | Returned st' \<Rightarrow>
               sendToGameMasters (ev_sessionId message)
                 (ParticipantSolution (ev_participantId message) (ev_correct message)
                    (ev_time message) (ev_length message)) st'))"

text \<open>
  The value a promise was rejected with. In the \<open>catch\<close> of \<open>processNewConnection\<close> the
  parameter is named \<open>error\<close> and hides the logger of that name, so the first statement
  calls the rejection value; neither undefined nor an Error object can be called, the
  call throws a TypeError and \<open>rejectConnection(ws)\<close> after it is not reached.
\<close>

datatype reason = Undefined | ErrorObject

fun callable :: "reason \<Rightarrow> bool" where
  "callable Undefined = False"
| "callable ErrorObject = False"

definition processNewConnection ::
  "conn \<Rightarrow> string option \<Rightarrow> string option \<Rightarrow> state \<Rightarrow> outcome" where
  "processNewConnection ws uid sessionCookie st =
     (case verifyAuth uid sessionCookie of
        Fulfilled (participantId, sessionId) \<Rightarrow>
          Returned (phoenix_send (SessionJoin sessionId participantId)
                      (addToLobby ws participantId sessionId st))
      | Rejected \<Rightarrow>
          (if callable Undefined then Returned (rejectConnection ws st) else Threw st))"

definition createNewParticipant :: "state \<Rightarrow> state" where
  "createNewParticipant st = st\<lparr>awaiting_users := Suc (awaiting_users st)\<rparr>"

text \<open>The continuation of \<open>UserService.create(...).then(...)\<close>.\<close>

definition userCreated :: "string settled \<Rightarrow> state \<Rightarrow> outcome" where
  "userCreated created st =
     (case created of
        Rejected \<Rightarrow> Threw st
      | Fulfilled uid \<Rightarrow>
          Returned (phoenix_send (ParticipantCreated uid) (emit (Log ''Create new user'') st)))"

fun processServerMessage :: "server_message \<Rightarrow> state \<Rightarrow> outcome" where
  "processServerMessage (ParticipantJoinedMsg participantId sessionId r) st =
     Returned (participantIdentified participantId sessionId r st)"
| "processServerMessage (SolutionEvaluatedMsg message) st = solutionEvaluated message st"
| "processServerMessage (CreateParticipantMsg userData) st =
     Returned (createNewParticipant st)"
| "processServerMessage (OtherServerMessage name) st =
     Returned (warn ''Unknown message from server'' st)"

section \<open>The event loop\<close>

datatype event =
    NewConnection conn "string option" "string option"
  | ConnectionClosed conn
  | ClientMessage conn client_message nat
  | ServerMessage server_message
  | ProfilesSettled participant_id session_id "loaded_value settled"
  | UserSettled "string settled"
  | PhoenixConnected
  | PhoenixDisconnected

text \<open>One reaction of the single-threaded loop; an exception that escapes a handler leaves
  the state as the handler had changed it. A continuation runs only when it is due.\<close>

fun step :: "event \<Rightarrow> state \<Rightarrow> state" where
  "step (NewConnection ws uid sessionCookie) st =
     state_of (processNewConnection ws uid sessionCookie st)"
| "step (ConnectionClosed ws) st = state_of (fireClose ws st)"
| "step (ClientMessage ws message now) st = fireMessage ws message now st"
| "step (ServerMessage message) st = state_of (processServerMessage message st)"
| "step (ProfilesSettled participantId sessionId loadProfiles) st =
     (if (participantId, sessionId) \<in> set (awaiting_profiles st)
      then state_of (profilesLoaded participantId sessionId loadProfiles
             (st\<lparr>awaiting_profiles :=
                   remove1 (participantId, sessionId) (awaiting_profiles st)\<rparr>))
      else st)"
| "step (UserSettled created) st =
     (if 0 < awaiting_users st
      then state_of (userCreated created (st\<lparr>awaiting_users := awaiting_users st - 1\<rparr>))
      else st)"
| "step PhoenixConnected st = phoenix_send Checkin (emit (Log ''phoenix is alive'') st)"
| "step PhoenixDisconnected st = emit (LogError ''phoenix disconnected'') st"

fun run :: "event list \<Rightarrow> state \<Rightarrow> state" where
  "run [] st = st"
| "run (e # es) st = run es (step e st)"

section \<open>Notions used in the statements\<close>

text \<open>The logical identity of an entry is its pair of participant and session.\<close>

definition lobby_identity :: "lobby_entry \<Rightarrow> participant_id \<times> session_id" where
  "lobby_identity e = snd e"

definition hall_identity :: "hall_entry \<Rightarrow> participant_id \<times> session_id" where
  "hall_identity e = (fst (snd e), fst (snd (snd e)))"

text \<open>The connections of a fan-out that are sent to: those before the first one whose
  \<open>send\<close> throws.\<close>

definition reached :: "state \<Rightarrow> conn list \<Rightarrow> conn list" where
  "reached st cs = takeWhile (\<lambda>c. \<not> send_throws st c) cs"


text \<open>A trace is guarded when every \<open>close\<close> in it has the code 4500 and comes directly
  after \<open>removeAllListeners\<close> on the same connection; \<open>prev\<close> is the connection whose
  listeners the preceding effect removed, if any.\<close>

fun guarded_from :: "conn option \<Rightarrow> effect list \<Rightarrow> bool" where
  "guarded_from prev [] = True"
| "guarded_from prev (Close c k # es) = (prev = Some c \<and> k = 4500 \<and> guarded_from None es)"
| "guarded_from prev (RemoveAllListeners c # es) = guarded_from (Some c) es"
| "guarded_from prev (e # es) = guarded_from None es"

definition closes_guarded :: "effect list \<Rightarrow> bool" where
  "closes_guarded es = guarded_from None es"

definition grows :: "state \<Rightarrow> state \<Rightarrow> bool" where
  "grows st st' = (\<exists>xs. effects st' = effects st @ xs \<and> closes_guarded xs)"

subsection \<open>Two concrete runs\<close>

text \<open>A transport on which every \<open>send\<close> returns; a game-master on connection 1 joins
  session s1 and is promoted, then a participant on connection 2 enters the lobby.\<close>

definition quiet :: "conn \<Rightarrow> bool" where
  "quiet c = False"

definition session_events :: "event list" where
  "session_events =
     [NewConnection 1 (Some ''gm1'') (Some ''s1''),
      ServerMessage (ParticipantJoinedMsg ''gm1'' ''s1'' GameMaster),
      NewConnection 2 (Some ''p1'') (Some ''s1'')]"

definition session_state :: state where
  "session_state = run session_events (initial quiet)"



section \<open>Basic facts\<close>

lemma emit_simps [simp]:
  "lobby (emit e st) = lobby st" "hall (emit e st) = hall st"
  "close_listeners (emit e st) = close_listeners st"
  "message_listeners (emit e st) = message_listeners st"
  "awaiting_profiles (emit e st) = awaiting_profiles st"
  "awaiting_users (emit e st) = awaiting_users st"
  "send_throws (emit e st) = send_throws st"
  "effects (emit e st) = effects st @ [e]"
  by (simp_all add: emit_def)

lemma forEach_send_effects:
  "effects (state_of (forEach_send cs m st)) = effects st @ map (\<lambda>c. Send c m) (reached st cs)"
  by (induction cs arbitrary: st) (simp_all add: reached_def ws_send_def)

lemma forEach_send_rest:
  "lobby (state_of (forEach_send cs m st)) = lobby st"
  "hall (state_of (forEach_send cs m st)) = hall st"
  "close_listeners (state_of (forEach_send cs m st)) = close_listeners st"
  "message_listeners (state_of (forEach_send cs m st)) = message_listeners st"
  "awaiting_profiles (state_of (forEach_send cs m st)) = awaiting_profiles st"
  "awaiting_users (state_of (forEach_send cs m st)) = awaiting_users st"
  "send_throws (state_of (forEach_send cs m st)) = send_throws st"
  by (induction cs arbitrary: st; simp add: ws_send_def)+




subsection \<open>Lookups in a registry without duplicates\<close>

lemma find_unique:
  assumes "x \<in> set L" and "P x" and "\<And>e. e \<in> set L \<Longrightarrow> P e \<Longrightarrow> e = x"
  shows "find P L = Some x"
  using assms
proof (induction L)
  case Nil
  then show ?case by simp
next
  case (Cons a L)
  show ?case
  proof (cases "P a")
    case True
    have "a = x"
      by (rule Cons.prems(3)) (simp_all add: True)
    with True show ?thesis by simp
  next
    case False
    with Cons.prems(1,2) have "x \<in> set L" by auto
    moreover have "\<And>e. e \<in> set L \<Longrightarrow> P e \<Longrightarrow> e = x"
      by (rule Cons.prems(3)) simp_all
    ultimately have "find P L = Some x"
      using Cons.prems(2) by (intro Cons.IH)
    with False show ?thesis by simp
  qed
qed

lemma filter_remove1_distinct:
  assumes "distinct (map f L)" "x \<in> set L"
  shows "filter (\<lambda>e. f e = f x) (remove1 x L) = []"
proof -
  have inj: "inj_on f (set L)" and d: "distinct L"
    using assms(1) by (simp_all add: distinct_map)
  have "f e \<noteq> f x" if e: "e \<in> set (remove1 x L)" for e
  proof
    assume eq: "f e = f x"
    from e d have m: "e \<in> set L" and ne: "e \<noteq> x"
      by simp_all
    from inj eq m assms(2) have "e = x"
      by (rule inj_onD)
    with ne show False ..
  qed
  then show ?thesis
    unfolding filter_empty_conv by blast
qed

lemma lobby_evict:
  assumes "distinct (map fst L)" "distinct (map lobby_identity L)"
    "(old, p, s) \<in> set L" "new \<notin> fst ` set L"
  shows "lobby_get L (Some new) (Some p) (Some s) = Some (old, p, s)"
    and "lobby_remove L old (Some p) (Some s) = remove1 (old, p, s) L"
proof -
  have inj1: "inj_on fst (set L)" and inj2: "inj_on lobby_identity (set L)"
    using assms(1,2) by (simp_all add: distinct_map)
  show "lobby_get L (Some new) (Some p) (Some s) = Some (old, p, s)"
    unfolding lobby_get_def
  proof (rule find_unique)
    fix e assume e: "e \<in> set L" "lobby_matches (Some new) (Some p) (Some s) e"
    obtain c' p' s' where eq: "e = (c', p', s')" by (cases e)
    have "c' \<noteq> new"
      using e(1) assms(4) unfolding eq by (metis fst_conv image_eqI)
    then have "lobby_identity e = lobby_identity (old, p, s)"
      using e(2) unfolding eq lobby_identity_def by simp
    with inj2 show "e = (old, p, s)"
      using e(1) assms(3) by (rule inj_onD)
  next
    show "(old, p, s) \<in> set L" by (rule assms(3))
    show "lobby_matches (Some new) (Some p) (Some s) (old, p, s)" by simp
  qed
  have "lobby_get L (Some old) (Some p) (Some s) = Some (old, p, s)"
    unfolding lobby_get_def
  proof (rule find_unique)
    fix e assume e: "e \<in> set L" "lobby_matches (Some old) (Some p) (Some s) e"
    obtain c' p' s' where eq: "e = (c', p', s')" by (cases e)
    from e(2) have "fst e = fst (old, p, s) \<or> lobby_identity e = lobby_identity (old, p, s)"
      unfolding eq lobby_identity_def by auto
    then show "e = (old, p, s)"
    proof
      assume "fst e = fst (old, p, s)"
      with inj1 show ?thesis using e(1) assms(3) by (rule inj_onD)
    next
      assume "lobby_identity e = lobby_identity (old, p, s)"
      with inj2 show ?thesis using e(1) assms(3) by (rule inj_onD)
    qed
  next
    show "(old, p, s) \<in> set L" by (rule assms(3))
    show "lobby_matches (Some old) (Some p) (Some s) (old, p, s)" by simp
  qed
  then show "lobby_remove L old (Some p) (Some s) = remove1 (old, p, s) L"
    by (simp add: lobby_remove_def)
qed

lemma hall_evict:
  assumes "distinct (map fst H)" "distinct (map hall_identity H)"
    "(old, p, s, r0) \<in> set H" "new \<notin> fst ` set H"
  shows "hall_get H (Some new) (Some p) (Some s) r = Some (old, p, s, r0)"
    and "hall_remove H old (Some p) (Some s) r' = remove1 (old, p, s, r0) H"
proof -
  have inj1: "inj_on fst (set H)" and inj2: "inj_on hall_identity (set H)"
    using assms(1,2) by (simp_all add: distinct_map)
  show "hall_get H (Some new) (Some p) (Some s) r = Some (old, p, s, r0)"
    unfolding hall_get_def
  proof (rule find_unique)
    fix e assume e: "e \<in> set H" "hall_matches (Some new) (Some p) (Some s) e"
    obtain c' p' s' r' where eq: "e = (c', p', s', r')" by (cases e)
    have "c' \<noteq> new"
      using e(1) assms(4) unfolding eq by (metis fst_conv image_eqI)
    then have "hall_identity e = hall_identity (old, p, s, r0)"
      using e(2) unfolding eq hall_identity_def by simp
    with inj2 show "e = (old, p, s, r0)"
      using e(1) assms(3) by (rule inj_onD)
  next
    show "(old, p, s, r0) \<in> set H" by (rule assms(3))
    show "hall_matches (Some new) (Some p) (Some s) (old, p, s, r0)" by simp
  qed
  have "hall_get H (Some old) (Some p) (Some s) r' = Some (old, p, s, r0)"
    unfolding hall_get_def
  proof (rule find_unique)
    fix e assume e: "e \<in> set H" "hall_matches (Some old) (Some p) (Some s) e"
    obtain c' p' s' r'' where eq: "e = (c', p', s', r'')" by (cases e)
    from e(2) have "fst e = fst (old, p, s, r0) \<or> hall_identity e = hall_identity (old, p, s, r0)"
      unfolding eq hall_identity_def by auto
    then show "e = (old, p, s, r0)"
    proof
      assume "fst e = fst (old, p, s, r0)"
      with inj1 show ?thesis using e(1) assms(3) by (rule inj_onD)
    next
      assume "hall_identity e = hall_identity (old, p, s, r0)"
      with inj2 show ?thesis using e(1) assms(3) by (rule inj_onD)
    qed
  next
    show "(old, p, s, r0) \<in> set H" by (rule assms(3))
    show "hall_matches (Some old) (Some p) (Some s) (old, p, s, r0)" by simp
  qed
  then show "hall_remove H old (Some p) (Some s) r' = remove1 (old, p, s, r0) H"
    by (simp add: hall_remove_def)
qed

subsection \<open>Promotion and the close handler of the hall\<close>

lemma emit_close_single:
  "state_of (emit_close [h] ws st) =
     state_of (run_close_handler h
       (st\<lparr>close_listeners := (close_listeners st)(ws := remove1 h (close_listeners st ws))\<rparr>))"
  by (cases "run_close_handler h
       (st\<lparr>close_listeners := (close_listeners st)(ws := remove1 h (close_listeners st ws))\<rparr>)")
    simp_all

lemma addToHall_listeners:
  "close_listeners st ws = [] \<Longrightarrow>
     close_listeners (addToHall ws p s r st) ws = [HallClose ws p s]"
  by (simp add: addToHall_def Let_def removeFromHall_def rejectConnection_def
      clearConnection_def split: option.splits)

lemma addToHall_send_throws: "send_throws (addToHall ws p s r st) = send_throws st"
  by (simp add: addToHall_def Let_def removeFromHall_def rejectConnection_def
      clearConnection_def split: option.splits)

lemma promoted_listeners:
  assumes "lobby_get (lobby st) None (Some p) (Some s) = Some (ws, p, s)"
  shows "close_listeners (participantIdentified p s r st) ws = [HallClose ws p s]"
    and "send_throws (participantIdentified p s r st) = send_throws st"
  using assms
  by (simp_all add: participantIdentified_def Let_def addToHall_listeners addToHall_send_throws
      clearConnection_def)

lemma hall_close_effects:
  "effects (state_of (run_close_handler (HallClose ws p s) st)) =
     effects st @ [RemoveAllListeners ws, Close ws 4500, PhoenixSend (SessionLeave s p)] @
       map (\<lambda>c. Send c (ParticipantLeft s p))
         (reached st (map fst (hall_getMasters (hall_remove (hall st) ws None None None) s)))"
  by (simp add: sendToGameMasters_def forEach_send_effects phoenix_send_def removeFromHall_def
      rejectConnection_def clearConnection_def reached_def)

lemma hall_close_hall:
  "hall (state_of (run_close_handler (HallClose ws p s) st)) =
     hall_remove (hall st) ws None None None"
  by (simp add: sendToGameMasters_def forEach_send_rest phoenix_send_def removeFromHall_def
      rejectConnection_def clearConnection_def)

lemma count_sends_leave:
  "count_list (map (\<lambda>c. Send c m) cs) (PhoenixSend x) = 0"
  by (induction cs) simp_all

lemma participantIdentified_awaiting:
  assumes "lobby_get (lobby st) None (Some p) (Some s) = Some (ws, p, s)"
  shows "awaiting_profiles (participantIdentified p s r st) = awaiting_profiles st @ [(p, s)]"
proof -
  have "awaiting_profiles (addToHall ws p s r st') = awaiting_profiles st'" for st'
    by (simp add: addToHall_def Let_def removeFromHall_def rejectConnection_def
        clearConnection_def split: option.splits)
  then show ?thesis
    using assms by (simp add: participantIdentified_def Let_def clearConnection_def)
qed

subsection \<open>Every operation extends the trace by a guarded piece\<close>

lemma guarded_from_any: "guarded_from None ys \<Longrightarrow> guarded_from prev ys"
proof (cases ys)
  case Nil
  then show ?thesis by simp
next
  case (Cons e es)
  assume "guarded_from None ys"
  with Cons show ?thesis by (cases e) simp_all
qed

lemma guarded_from_append:
  "guarded_from prev xs \<Longrightarrow> guarded_from None ys \<Longrightarrow> guarded_from prev (xs @ ys)"
proof (induction xs arbitrary: prev)
  case Nil
  then show ?case by (simp add: guarded_from_any)
next
  case (Cons e xs)
  then show ?case by (cases e) simp_all
qed

lemma closes_guarded_append:
  "closes_guarded xs \<Longrightarrow> closes_guarded ys \<Longrightarrow> closes_guarded (xs @ ys)"
  by (simp add: closes_guarded_def guarded_from_append)

lemma grows_refl: "grows st st"
  by (simp add: grows_def closes_guarded_def)

lemma grows_trans: "grows a b \<Longrightarrow> grows b c \<Longrightarrow> grows a c"
proof -
  assume "grows a b" and "grows b c"
  then obtain xs ys where "effects b = effects a @ xs" "closes_guarded xs"
    "effects c = effects b @ ys" "closes_guarded ys"
    unfolding grows_def by blast
  then have "effects c = effects a @ (xs @ ys)" "closes_guarded (xs @ ys)"
    by (simp_all add: closes_guarded_append)
  then show ?thesis
    unfolding grows_def by blast
qed

lemma grows_same: "effects st' = effects st \<Longrightarrow> grows st st'"
  by (simp add: grows_def closes_guarded_def)

lemma grows_emit: "closes_guarded [e] \<Longrightarrow> grows st (emit e st)"
  by (simp add: grows_def)

lemma grows_warn: "grows st (warn txt st)"
  by (simp add: warn_def grows_emit closes_guarded_def)

lemma grows_phoenix: "grows st (phoenix_send m st)"
  by (simp add: phoenix_send_def grows_emit closes_guarded_def)

lemma grows_reject: "grows st (rejectConnection ws st)"
  by (simp add: grows_def rejectConnection_def clearConnection_def closes_guarded_def)

lemma grows_clear: "grows st (clearConnection ws st)"
  by (simp add: grows_def clearConnection_def closes_guarded_def)

lemma grows_removeFromLobby: "grows st (removeFromLobby ws p s st)"
  unfolding removeFromLobby_def
  by (rule grows_trans [OF _ grows_reject]) (simp add: grows_same)

lemma grows_removeFromHall: "grows st (removeFromHall ws p s r st)"
  unfolding removeFromHall_def
  by (rule grows_trans [OF _ grows_reject]) (simp add: grows_same)

lemma grows_addToLobby: "grows st (addToLobby ws p s st)"
proof -
  have "grows st (case lobby_get (lobby st) (Some ws) (Some p) (Some s) of
                   None \<Rightarrow> st
                 | Some (ws', p', s') \<Rightarrow> removeFromLobby ws' (Some p') (Some s') st)"
    by (simp add: grows_refl grows_removeFromLobby split: option.splits)
  then show ?thesis
    unfolding addToLobby_def Let_def
    by (rule grows_trans) (simp add: grows_same)
qed

lemma grows_addToHall: "grows st (addToHall ws p s r st)"
proof -
  have "grows st (case hall_get (hall st) (Some ws) (Some p) (Some s) (Some r) of
                   None \<Rightarrow> st
                 | Some (ws', p', s', r') \<Rightarrow> removeFromHall ws' (Some p') (Some s') (Some r') st)"
    by (simp add: grows_refl grows_removeFromHall split: option.splits)
  then show ?thesis
    unfolding addToHall_def Let_def
    by (rule grows_trans) (simp add: grows_same)
qed

lemma grows_ws_send: "grows st (state_of (ws_send ws m st))"
  by (simp add: ws_send_def grows_refl grows_emit closes_guarded_def)

lemma grows_forEach_send: "grows st (state_of (forEach_send cs m st))"
proof (induction cs arbitrary: st)
  case Nil
  then show ?case by (simp add: grows_refl)
next
  case (Cons c cs)
  show ?case
  proof (cases "send_throws st c")
    case True
    then show ?thesis by (simp add: ws_send_def grows_refl)
  next
    case False
    have "grows st (emit (Send c m) st)"
      by (simp add: grows_emit closes_guarded_def)
    from grows_trans [OF this Cons.IH] False show ?thesis
      by (simp add: ws_send_def)
  qed
qed

lemma grows_sendToGameMasters: "grows st (state_of (sendToGameMasters s m st))"
  by (simp add: sendToGameMasters_def grows_forEach_send)

lemma grows_run_close_handler: "grows st (state_of (run_close_handler h st))"
proof (cases h)
  case (LobbyClose ws p s)
  show ?thesis
    unfolding LobbyClose run_close_handler.simps state_of.simps
    by (rule grows_trans [OF grows_removeFromLobby grows_phoenix])
next
  case (HallClose ws p s)
  show ?thesis
    unfolding HallClose run_close_handler.simps
    by (rule grows_trans [OF grows_trans [OF grows_removeFromHall grows_phoenix]
          grows_sendToGameMasters])
qed

lemma grows_emit_close: "grows st (state_of (emit_close hs ws st))"
proof (induction hs arbitrary: st)
  case Nil
  then show ?case by (simp add: grows_refl)
next
  case (Cons h hs)
  let ?st0 = "st\<lparr>close_listeners := (close_listeners st)(ws := remove1 h (close_listeners st ws))\<rparr>"
  have a: "grows st (state_of (run_close_handler h ?st0))"
    by (rule grows_trans [OF _ grows_run_close_handler]) (simp add: grows_same)
  show ?case
  proof (cases "run_close_handler h ?st0")
    case (Returned st')
    with a have "grows st st'" by simp
    from grows_trans [OF this Cons.IH] Returned show ?thesis by simp
  next
    case (Threw st')
    with a show ?thesis by simp
  qed
qed

lemma grows_handleClientMessage: "grows st (handleClientMessage ws m now st)"
  by (simp add: handleClientMessage_def grows_warn grows_phoenix
      split: option.splits client_message.splits)

lemma grows_funpow: "(\<And>st. grows st (f st)) \<Longrightarrow> grows st ((f ^^ n) st)"
proof (induction n)
  case 0
  then show ?case by (simp add: grows_refl)
next
  case (Suc n)
  from grows_trans [OF Suc.IH [OF Suc.prems] Suc.prems] show ?case by simp
qed

lemma grows_participantIdentified: "grows st (participantIdentified p s r st)"
proof (cases "lobby_get (lobby st) None (Some p) (Some s)")
  case None
  then show ?thesis by (simp add: participantIdentified_def grows_warn)
next
  case (Some e)
  obtain ws p' s' where e: "e = (ws, p', s')" by (cases e)
  let ?st1 = "st\<lparr>lobby := lobby_remove (lobby st) ws (Some p') (Some s')\<rparr>"
  have "grows st (clearConnection ws ?st1)"
    by (rule grows_trans [OF _ grows_clear]) (simp add: grows_same)
  from grows_trans [OF this grows_addToHall]
  have "grows st (addToHall ws p' s' r (clearConnection ws ?st1))" .
  then show ?thesis
    unfolding participantIdentified_def Let_def Some e option.case prod.case
    by (rule grows_trans) (simp add: grows_same)
qed

lemma grows_profilesLoaded: "grows st (state_of (profilesLoaded p s l st))"
proof -
  have g: "grows st (snd (getProfiles l ids st))" for ids
    by (simp add: getProfiles_def grows_refl grows_warn split: settled.splits)
  obtain res st1 where r: "getProfiles l [p] st = (res, st1)" by (cases "getProfiles l [p] st")
  with g [of "[p]"] have g1: "grows st st1" by simp
  show ?thesis
  proof (cases res)
    case Rejected
    with r g1 show ?thesis by (simp add: profilesLoaded_def)
  next
    case (Fulfilled ps)
    show ?thesis
    proof (cases ps)
      case Nil
      with r Fulfilled grows_trans [OF g1 grows_warn] show ?thesis
        by (simp add: profilesLoaded_def)
    next
      case (Cons q qs)
      with r Fulfilled grows_trans [OF g1 grows_sendToGameMasters] show ?thesis
        by (simp add: profilesLoaded_def)
    qed
  qed
qed

lemma grows_solutionEvaluated: "grows st (state_of (solutionEvaluated ev st))"
proof (cases "hall_get (hall st) None (Some (ev_participantId ev)) (Some (ev_sessionId ev)) None")
  case None
  then show ?thesis by (simp add: solutionEvaluated_def grows_warn)
next
  case (Some e)
  obtain ws p' s' r' where e: "e = (ws, p', s', r')" by (cases e)
  show ?thesis
  proof (cases "send_throws st ws")
    case True
    with Some e show ?thesis
      by (simp add: solutionEvaluated_def sendToPlayer_def ws_send_def grows_refl)
  next
    case False
    have "grows st (emit (Send ws m) st)" for m
      by (simp add: grows_emit closes_guarded_def)
    from grows_trans [OF this grows_sendToGameMasters] False Some e show ?thesis
      by (simp add: solutionEvaluated_def sendToPlayer_def ws_send_def)
  qed
qed

lemma grows_processNewConnection: "grows st (state_of (processNewConnection ws u c st))"
  by (auto simp: processNewConnection_def grows_refl
      intro: grows_trans [OF grows_addToLobby grows_phoenix] split: settled.splits)

lemma grows_userCreated: "grows st (state_of (userCreated created st))"
proof (cases created)
  case (Fulfilled uid)
  have "grows st (emit (Log ''Create new user'') st)"
    by (simp add: grows_emit closes_guarded_def)
  from grows_trans [OF this grows_phoenix] Fulfilled show ?thesis
    by (simp add: userCreated_def)
qed (simp add: userCreated_def grows_refl)

lemma grows_processServerMessage: "grows st (state_of (processServerMessage m st))"
  by (cases m)
    (simp_all add: grows_participantIdentified grows_solutionEvaluated grows_warn
      createNewParticipant_def grows_same)

lemma grows_step: "grows st (step e st)"
proof (cases e)
  case (NewConnection ws u c)
  then show ?thesis by (simp add: grows_processNewConnection)
next
  case (ConnectionClosed ws)
  then show ?thesis by (simp add: fireClose_def grows_emit_close)
next
  case (ClientMessage ws m now)
  then show ?thesis by (simp add: fireMessage_def grows_funpow grows_handleClientMessage)
next
  case (ServerMessage m)
  then show ?thesis by (simp add: grows_processServerMessage)
next
  case (ProfilesSettled p s l)
  let ?st0 = "st\<lparr>awaiting_profiles := remove1 (p, s) (awaiting_profiles st)\<rparr>"
  have "grows st (state_of (profilesLoaded p s l ?st0))"
    by (rule grows_trans [OF _ grows_profilesLoaded]) (simp add: grows_same)
  with ProfilesSettled show ?thesis by (simp add: grows_refl)
next
  case (UserSettled created)
  let ?st0 = "st\<lparr>awaiting_users := awaiting_users st - 1\<rparr>"
  have "grows st (state_of (userCreated created ?st0))"
    by (rule grows_trans [OF _ grows_userCreated]) (simp add: grows_same)
  with UserSettled show ?thesis by (simp add: grows_refl)
next
  case PhoenixConnected
  have "grows st (emit (Log ''phoenix is alive'') st)"
    by (simp add: grows_emit closes_guarded_def)
  from grows_trans [OF this grows_phoenix] PhoenixConnected show ?thesis by simp
next
  case PhoenixDisconnected
  then show ?thesis by (simp add: grows_emit closes_guarded_def)
qed

lemma grows_run: "grows st (run evs st)"
proof (induction evs arbitrary: st)
  case Nil
  then show ?case by (simp add: grows_refl)
next
  case (Cons e evs)
  from grows_trans [OF grows_step Cons.IH] show ?case by simp
qed

subsection \<open>The two concrete runs, evaluated\<close>

lemma session_state_fields:
  "lobby session_state = [(2, ''p1'', ''s1'')]"
  "hall session_state = [(1, ''gm1'', ''s1'', GameMaster)]"
  "effects session_state =
     [PhoenixSend (SessionJoin ''s1'' ''gm1''), RemoveAllListeners 1,
      PhoenixSend (SessionJoin ''s1'' ''p1'')]"
  "send_throws session_state = quiet"
  "awaiting_profiles session_state = [(''gm1'', ''s1'')]"
  "close_listeners session_state (Suc 0) = [HallClose 1 ''gm1'' ''s1'']"
  "close_listeners session_state 2 = [LobbyClose 2 ''p1'' ''s1'']"
  "message_listeners session_state (Suc 0) = Suc 0"
  by (simp_all add: session_state_def session_events_def initial_def processNewConnection_def
      verifyAuth_def addToLobby_def lobby_get_def lobby_add_def lobby_remove_def Let_def
      phoenix_send_def participantIdentified_def clearConnection_def addToHall_def
      hall_get_def hall_add_def)


lemma promoted_p1:
  "hall (participantIdentified ''p1'' ''s1'' Player session_state) =
     [(1, ''gm1'', ''s1'', GameMaster), (2, ''p1'', ''s1'', Player)]"
  "effects (participantIdentified ''p1'' ''s1'' Player session_state) =
     effects session_state @ [RemoveAllListeners 2]"
  by (simp_all add: participantIdentified_def lobby_get_def Let_def addToHall_def
      clearConnection_def session_state_fields hall_get_def hall_add_def)

section \<open>Replacement on reconnect\<close>

text \<open>
  Claim C1. A registry (lobby or hall) holds an entry for the identity
  \<open>(participantId, sessionId)\<close> on connection \<open>old\<close>; its entries have pairwise different
  connections and pairwise different identities, and \<open>new\<close> is a connection it does not
  hold. Admitting \<open>new\<close> under that identity performs exactly one forced close, that of
  \<open>old\<close>, and nothing else that can be observed: no \<open>sessionLeave\<close> goes to the
  coordination service and nothing is sent to any client. Afterwards the identity has exactly
  one entry, the one of \<open>new\<close>, and the close event of \<open>old\<close> finds no listener, so it
  changes nothing and notifies nobody. In the hall this holds whatever role the replaced
  entry had.
\<close>

theorem reconnect_replaces_silently:
  "(distinct (map fst (lobby st)) \<and> distinct (map lobby_identity (lobby st))
      \<and> (old, p, s) \<in> set (lobby st) \<and> new \<notin> fst ` set (lobby st)
    \<longrightarrow> effects (addToLobby new p s st) =
          effects st @ [RemoveAllListeners old, Close old 4500]
        \<and> filter (\<lambda>e. lobby_identity e = (p, s)) (lobby (addToLobby new p s st)) =
          [(new, p, s)]
        \<and> fireClose old (addToLobby new p s st) = Returned (addToLobby new p s st))
   \<and> (distinct (map fst (hall st)) \<and> distinct (map hall_identity (hall st))
      \<and> (old, p, s, r0) \<in> set (hall st) \<and> new \<notin> fst ` set (hall st)
    \<longrightarrow> effects (addToHall new p s r st) =
          effects st @ [RemoveAllListeners old, Close old 4500]
        \<and> filter (\<lambda>e. hall_identity e = (p, s)) (hall (addToHall new p s r st)) =
          [(new, p, s, r)]
        \<and> fireClose old (addToHall new p s r st) = Returned (addToHall new p s r st))"
proof (intro conjI impI)
  assume a: "distinct (map fst (lobby st)) \<and> distinct (map lobby_identity (lobby st))
      \<and> (old, p, s) \<in> set (lobby st) \<and> new \<notin> fst ` set (lobby st)"
  then have a1: "distinct (map fst (lobby st))" and a2: "distinct (map lobby_identity (lobby st))"
    and a3: "(old, p, s) \<in> set (lobby st)" and a4: "new \<notin> fst ` set (lobby st)"
    by blast+
  from a3 a4 have ne: "old \<noteq> new" by (metis fst_conv image_eqI)
  note g = lobby_evict(1) [OF a1 a2 a3 a4] and r = lobby_evict(2) [OF a1 a2 a3 a4]
  have f: "filter (\<lambda>e. lobby_identity e = (p, s)) (remove1 (old, p, s) (lobby st)) = []"
    using filter_remove1_distinct [OF a2 a3] by (simp add: lobby_identity_def)
  show "effects (addToLobby new p s st) = effects st @ [RemoveAllListeners old, Close old 4500]"
    by (simp add: addToLobby_def g removeFromLobby_def rejectConnection_def
        clearConnection_def Let_def)
  show "filter (\<lambda>e. lobby_identity e = (p, s)) (lobby (addToLobby new p s st)) = [(new, p, s)]"
    by (simp add: addToLobby_def g r f removeFromLobby_def rejectConnection_def
        clearConnection_def Let_def lobby_add_def) (simp add: lobby_identity_def)
  have "close_listeners (addToLobby new p s st) old = []"
    using ne
    by (simp add: addToLobby_def g removeFromLobby_def rejectConnection_def
        clearConnection_def Let_def)
  then show "fireClose old (addToLobby new p s st) = Returned (addToLobby new p s st)"
    by (simp add: fireClose_def)
next
  assume a: "distinct (map fst (hall st)) \<and> distinct (map hall_identity (hall st))
      \<and> (old, p, s, r0) \<in> set (hall st) \<and> new \<notin> fst ` set (hall st)"
  then have a1: "distinct (map fst (hall st))" and a2: "distinct (map hall_identity (hall st))"
    and a3: "(old, p, s, r0) \<in> set (hall st)" and a4: "new \<notin> fst ` set (hall st)"
    by blast+
  from a3 a4 have ne: "old \<noteq> new" by (metis fst_conv image_eqI)
  note g = hall_evict(1) [OF a1 a2 a3 a4] and r = hall_evict(2) [OF a1 a2 a3 a4]
  have f: "filter (\<lambda>e. hall_identity e = (p, s)) (remove1 (old, p, s, r0) (hall st)) = []"
    using filter_remove1_distinct [OF a2 a3] by (simp add: hall_identity_def)
  show "effects (addToHall new p s r st) = effects st @ [RemoveAllListeners old, Close old 4500]"
    by (simp add: addToHall_def g removeFromHall_def rejectConnection_def
        clearConnection_def Let_def)
  show "filter (\<lambda>e. hall_identity e = (p, s)) (hall (addToHall new p s r st)) = [(new, p, s, r)]"
    by (simp add: addToHall_def g r f removeFromHall_def rejectConnection_def
        clearConnection_def Let_def hall_add_def) (simp add: hall_identity_def)
  have "close_listeners (addToHall new p s r st) old = []"
    using ne
    by (simp add: addToHall_def g removeFromHall_def rejectConnection_def
        clearConnection_def Let_def)
  then show "fireClose old (addToHall new p s r st) = Returned (addToHall new p s r st)"
    by (simp add: fireClose_def)
qed

text \<open>In the first run: connection 3 replaces connection 2 in the lobby, and replaces
  connection 1 in the hall under another role.\<close>

theorem reconnect_replaces_silently_witness:
  "effects (addToLobby 3 ''p1'' ''s1'' session_state) =
     effects session_state @ [RemoveAllListeners 2, Close 2 4500]
   \<and> filter (\<lambda>e. lobby_identity e = (''p1'', ''s1''))
       (lobby (addToLobby 3 ''p1'' ''s1'' session_state)) = [(3, ''p1'', ''s1'')]
   \<and> fireClose 2 (addToLobby 3 ''p1'' ''s1'' session_state) =
     Returned (addToLobby 3 ''p1'' ''s1'' session_state)
   \<and> effects (addToHall 3 ''gm1'' ''s1'' Player session_state) =
     effects session_state @ [RemoveAllListeners 1, Close 1 4500]
   \<and> filter (\<lambda>e. hall_identity e = (''gm1'', ''s1''))
       (hall (addToHall 3 ''gm1'' ''s1'' Player session_state)) = [(3, ''gm1'', ''s1'', Player)]
   \<and> fireClose 1 (addToHall 3 ''gm1'' ''s1'' Player session_state) =
     Returned (addToHall 3 ''gm1'' ''s1'' Player session_state)"
  using reconnect_replaces_silently [of session_state 2 "''p1''" "''s1''" 3]
    reconnect_replaces_silently [of session_state 1 "''gm1''" "''s1''" 3 GameMaster Player]
  by (simp add: session_state_fields lobby_identity_def hall_identity_def)

section \<open>Authentication failure\<close>

text \<open>
  Claim C2. When authentication rejects, the connection is to be closed at once and gets no
  registry entry. The code does not close it: without the \<open>secret\<close> cookie (or without the
  \<open>sessionId\<close> cookie) \<open>processNewConnection\<close> ends with an exception escaping its
  \<open>catch\<close> handler and with the state untouched, so no \<open>close\<close> is ever issued for the
  connection. That no registry entry is created does hold.
\<close>

theorem auth_rejection_never_closes:
  "processNewConnection ws None sessionCookie st = Threw st
   \<and> processNewConnection ws uid None st = Threw st
   \<and> processNewConnection 3 None (Some ''s1'') session_state = Threw session_state
   \<and> Close 3 4500 \<notin> set (effects (step (NewConnection 3 None (Some ''s1'')) session_state))"
  by (simp add: processNewConnection_def verifyAuth_def session_state_fields
      split: option.splits)

section \<open>Broadcast fan-out\<close>



section \<open>Profile loading\<close>

text \<open>
  When the profile loader rejects, or resolves with something that is not an array (a falsy
  value or another non-array), \<open>getProfiles\<close> resolves with the default profile for every
  requested identifier, and the continuation of the promotion broadcasts "participant
  joined" with the display name Unknown to the game-masters of the session.
\<close>

lemma profile_rejection_falls_back:
  assumes "loadProfiles = Rejected \<or> loadProfiles = Fulfilled Falsy
           \<or> loadProfiles = Fulfilled NonArray"
  shows "fst (getProfiles loadProfiles participantIds st) =
           Fulfilled (replicate (length participantIds) DEFAULT_PROFILE)
         \<and> effects (state_of (profilesLoaded p s loadProfiles st)) =
             effects st @ [Warn ''Error in profile loading''] @
               map (\<lambda>c. Send c (ParticipantJoined s p ''Unknown''))
                 (reached st (map fst (hall_getMasters (hall st) s)))
         \<and> (lobby_get (lobby st) None (Some p) (Some s) = Some (ws, p, s) \<longrightarrow>
             effects (run [ServerMessage (ParticipantJoinedMsg p s r),
                           ProfilesSettled p s loadProfiles] st) =
               effects (participantIdentified p s r st) @ [Warn ''Error in profile loading''] @
                 map (\<lambda>c. Send c (ParticipantJoined s p ''Unknown''))
                   (reached st (map fst (hall_getMasters
                      (hall (participantIdentified p s r st)) s))))"
proof -
  have g: "getProfiles loadProfiles ids st0 =
      (Fulfilled (replicate (length ids) DEFAULT_PROFILE), warn ''Error in profile loading'' st0)"
    for ids st0
    using assms by (auto simp: getProfiles_def)
  have e: "effects (state_of (profilesLoaded p s loadProfiles st0)) =
             effects st0 @ [Warn ''Error in profile loading''] @
               map (\<lambda>c. Send c (ParticipantJoined s p ''Unknown''))
                 (reached st0 (map fst (hall_getMasters (hall st0) s)))" for st0
    by (simp add: profilesLoaded_def g DEFAULT_PROFILE_def sendToGameMasters_def
        forEach_send_effects warn_def reached_def)
  have "effects (run [ServerMessage (ParticipantJoinedMsg p s r),
                      ProfilesSettled p s loadProfiles] st) =
          effects (participantIdentified p s r st) @ [Warn ''Error in profile loading''] @
            map (\<lambda>c. Send c (ParticipantJoined s p ''Unknown''))
              (reached st (map fst (hall_getMasters (hall (participantIdentified p s r st)) s)))"
    if l: "lobby_get (lobby st) None (Some p) (Some s) = Some (ws, p, s)"
  proof -
    let ?st1 = "participantIdentified p s r st"
    let ?st2 = "?st1\<lparr>awaiting_profiles := remove1 (p, s) (awaiting_profiles ?st1)\<rparr>"
    have a: "(p, s) \<in> set (awaiting_profiles ?st1)"
      by (simp add: participantIdentified_awaiting [OF l])
    have t: "reached ?st2 cs = reached st cs" for cs
      by (simp add: reached_def promoted_listeners(2) [OF l])
    have "run [ServerMessage (ParticipantJoinedMsg p s r), ProfilesSettled p s loadProfiles] st =
        state_of (profilesLoaded p s loadProfiles ?st2)"
      using a by simp
    then show ?thesis
      by (simp only: e t) simp
  qed
  then show ?thesis
    by (simp add: g e)
qed

text \<open>In the first run the loader rejects: for the game-master already in the hall, and for
  the participant of connection 2 promoted to a player.\<close>

lemma profile_rejection_falls_back_example:
  "fst (getProfiles Rejected [''p1''] session_state) = Fulfilled [DEFAULT_PROFILE]
   \<and> effects (state_of (profilesLoaded ''gm1'' ''s1'' Rejected session_state)) =
       effects session_state @ [Warn ''Error in profile loading'',
         Send 1 (ParticipantJoined ''s1'' ''gm1'' ''Unknown'')]
   \<and> effects (run [ServerMessage (ParticipantJoinedMsg ''p1'' ''s1'' Player),
                    ProfilesSettled ''p1'' ''s1'' Rejected] session_state) =
       effects session_state @ [RemoveAllListeners 2, Warn ''Error in profile loading'',
         Send 1 (ParticipantJoined ''s1'' ''p1'' ''Unknown'')]"
  using profile_rejection_falls_back [of Rejected "[''p1'']" session_state "''gm1''" "''s1''"]
    profile_rejection_falls_back [of Rejected "[''p1'']" session_state "''p1''" "''s1''" 2 Player]
  by (simp add: promoted_p1 hall_getMasters_def hall_list_def reached_def quiet_def
      session_state_fields lobby_get_def del: run.simps step.simps)

text \<open>
  Claim C4. A malformed result of the loader is to be replaced by the default profile for
  every requested identifier, and the "participant joined" broadcast is to go out with the
  default display name. For an array that is too short the code does neither: when the
  loader resolves with the empty array for the one identifier of a promotion,
  \<open>getProfiles\<close> resolves with the empty array; the continuation finds no profile, logs a
  warning and then reads \<open>displayName\<close> of the missing profile, which throws. Nothing is sent
  to the game-masters, here to the one on connection 1 of the first run.
\<close>

theorem short_profile_array_blocks_joined:
  "getProfiles (Fulfilled (ProfileArray [])) [p] st = (Fulfilled [], st)
   \<and> profilesLoaded p s (Fulfilled (ProfileArray [])) st =
       Threw (st\<lparr>effects := effects st @ [Warn ''Can not get profile for participant'']\<rparr>)
   \<and> map fst (hall_getMasters (hall (participantIdentified ''p1'' ''s1'' Player session_state))
       ''s1'') = [1]
   \<and> effects (run [ServerMessage (ParticipantJoinedMsg ''p1'' ''s1'' Player),
                    ProfilesSettled ''p1'' ''s1'' (Fulfilled (ProfileArray []))] session_state) =
       effects session_state @
         [RemoveAllListeners 2, Warn ''Can not get profile for participant'']"
proof -
  have g: "getProfiles (Fulfilled (ProfileArray [])) [p] st0 = (Fulfilled [], st0)" for p st0
    by (simp add: getProfiles_def)
  have l: "profilesLoaded p s (Fulfilled (ProfileArray [])) st0 =
       Threw (st0\<lparr>effects := effects st0 @ [Warn ''Can not get profile for participant'']\<rparr>)"
    for p s st0
    by (simp add: profilesLoaded_def g warn_def emit_def)
  have a: "awaiting_profiles (participantIdentified ''p1'' ''s1'' Player session_state) =
      awaiting_profiles session_state @ [(''p1'', ''s1'')]"
    by (rule participantIdentified_awaiting [where ws = 2])
      (simp add: session_state_fields lobby_get_def)
  have "run [ServerMessage (ParticipantJoinedMsg ''p1'' ''s1'' Player),
             ProfilesSettled ''p1'' ''s1'' (Fulfilled (ProfileArray []))] session_state =
      state_of (profilesLoaded ''p1'' ''s1'' (Fulfilled (ProfileArray []))
        ((participantIdentified ''p1'' ''s1'' Player session_state)
           \<lparr>awaiting_profiles := remove1 (''p1'', ''s1'')
              (awaiting_profiles (participantIdentified ''p1'' ''s1'' Player session_state))\<rparr>))"
    by (simp add: a)
  then have "effects (run [ServerMessage (ParticipantJoinedMsg ''p1'' ''s1'' Player),
             ProfilesSettled ''p1'' ''s1'' (Fulfilled (ProfileArray []))] session_state) =
       effects session_state @
         [RemoveAllListeners 2, Warn ''Can not get profile for participant'']"
    by (simp only: l) (simp add: promoted_p1)
  then show ?thesis
    by (simp add: g l promoted_p1 hall_getMasters_def hall_list_def)
qed

section \<open>Promotion followed by a disconnect\<close>

text \<open>
  Claim C5. A participant found in the lobby is promoted to the hall and its connection then
  closes. The close event adds to the trace the forced close of the connection, exactly one
  \<open>sessionLeave\<close> for the participant to the coordination service, and one fan-out of
  "participant left" over the game-masters of the session that remain in the hall; the
  entry of the connection is removed. More generally this is what the close event does from
  any state in which the hall's close handler is the listener of the connection.
\<close>

theorem promote_then_disconnect:
  "(lobby_get (lobby st) None (Some p) (Some s) = Some (ws, p, s) \<longrightarrow>
      effects (state_of (fireClose ws (participantIdentified p s r st))) =
        effects (participantIdentified p s r st) @
          [RemoveAllListeners ws, Close ws 4500, PhoenixSend (SessionLeave s p)] @
          map (\<lambda>c. Send c (ParticipantLeft s p))
            (reached st (map fst (hall_getMasters
               (hall (state_of (fireClose ws (participantIdentified p s r st)))) s)))
      \<and> count_list (effects (state_of (fireClose ws (participantIdentified p s r st))))
            (PhoenixSend (SessionLeave s p)) =
          Suc (count_list (effects (participantIdentified p s r st))
            (PhoenixSend (SessionLeave s p)))
      \<and> hall (state_of (fireClose ws (participantIdentified p s r st))) =
          hall_remove (hall (participantIdentified p s r st)) ws None None None)
   \<and> (close_listeners st' ws = [HallClose ws p s] \<longrightarrow>
      effects (state_of (fireClose ws st')) =
        effects st' @ [RemoveAllListeners ws, Close ws 4500, PhoenixSend (SessionLeave s p)] @
          map (\<lambda>c. Send c (ParticipantLeft s p))
            (reached st' (map fst (hall_getMasters (hall_remove (hall st') ws None None None) s))))"
proof (intro conjI impI)
  assume l: "close_listeners st' ws = [HallClose ws p s]"
  let ?st0 = "st'\<lparr>close_listeners := (close_listeners st')(ws := [])\<rparr>"
  have f: "state_of (fireClose ws st') = state_of (run_close_handler (HallClose ws p s) ?st0)"
    by (simp only: fireClose_def l emit_close_single) simp
  have r: "reached ?st0 cs = reached st' cs" for cs
    by (simp add: reached_def)
  show "effects (state_of (fireClose ws st')) =
        effects st' @ [RemoveAllListeners ws, Close ws 4500, PhoenixSend (SessionLeave s p)] @
          map (\<lambda>c. Send c (ParticipantLeft s p))
            (reached st' (map fst (hall_getMasters (hall_remove (hall st') ws None None None) s)))"
    by (simp only: f hall_close_effects r) simp
next
  assume g: "lobby_get (lobby st) None (Some p) (Some s) = Some (ws, p, s)"
  let ?st1 = "participantIdentified p s r st"
  let ?st0 = "?st1\<lparr>close_listeners := (close_listeners ?st1)(ws := [])\<rparr>"
  have l: "close_listeners ?st1 ws = [HallClose ws p s]"
    and t: "send_throws ?st1 = send_throws st"
    using promoted_listeners [OF g] by simp_all
  have f: "state_of (fireClose ws ?st1) = state_of (run_close_handler (HallClose ws p s) ?st0)"
    by (simp only: fireClose_def l emit_close_single) simp
  have r: "reached ?st0 cs = reached st cs" for cs
    by (simp add: reached_def t)
  show e: "effects (state_of (fireClose ws ?st1)) =
        effects ?st1 @
          [RemoveAllListeners ws, Close ws 4500, PhoenixSend (SessionLeave s p)] @
          map (\<lambda>c. Send c (ParticipantLeft s p))
            (reached st (map fst (hall_getMasters (hall (state_of (fireClose ws ?st1))) s)))"
    by (simp only: f hall_close_effects hall_close_hall r) simp
  show "count_list (effects (state_of (fireClose ws ?st1))) (PhoenixSend (SessionLeave s p)) =
          Suc (count_list (effects ?st1) (PhoenixSend (SessionLeave s p)))"
    by (subst e) (simp add: count_sends_leave)
  show "hall (state_of (fireClose ws ?st1)) = hall_remove (hall ?st1) ws None None None"
    by (simp only: f hall_close_hall) simp
qed

text \<open>In the first run the participant of connection 2 is promoted to a player and
  disconnects: one \<open>sessionLeave\<close>, and "participant left" to the game-master on
  connection 1.\<close>

theorem promote_then_disconnect_witness:
  "effects (state_of (fireClose 2 (participantIdentified ''p1'' ''s1'' Player session_state))) =
     effects (participantIdentified ''p1'' ''s1'' Player session_state) @
       [RemoveAllListeners 2, Close 2 4500, PhoenixSend (SessionLeave ''s1'' ''p1''),
        Send 1 (ParticipantLeft ''s1'' ''p1'')]
   \<and> hall (state_of (fireClose 2 (participantIdentified ''p1'' ''s1'' Player session_state))) =
       [(1, ''gm1'', ''s1'', GameMaster)]
   \<and> effects (state_of (fireClose 1 session_state)) =
       effects session_state @
         [RemoveAllListeners 1, Close 1 4500, PhoenixSend (SessionLeave ''s1'' ''gm1'')]"
  using promote_then_disconnect [of session_state "''p1''" "''s1''" 2 Player session_state]
    promote_then_disconnect [of session_state "''gm1''" "''s1''" 1 Player session_state]
  by (simp add: promoted_p1 hall_remove_def hall_get_def hall_getMasters_def hall_list_def
      session_state_fields quiet_def reached_def lobby_get_def)

section \<open>Closing an evicted connection\<close>

text \<open>
  Claim C6. Once a connection has been evicted (by \<open>rejectConnection\<close>, directly or through
  the removal from the lobby or from the hall), its close event leaves the whole state as
  it is: no registry changes and nothing is sent or logged.
\<close>

theorem evicted_close_is_silent:
  "fireClose ws (rejectConnection ws st) = Returned (rejectConnection ws st)
   \<and> fireClose ws (removeFromLobby ws p s st) = Returned (removeFromLobby ws p s st)
   \<and> fireClose ws (removeFromHall ws p s r st) = Returned (removeFromHall ws p s r st)"
  by (simp add: fireClose_def removeFromLobby_def removeFromHall_def rejectConnection_def
      clearConnection_def)

section \<open>Unknown participants\<close>

text \<open>
  Claim C7. A client message from a connection that has no hall entry, a role assignment
  for an identity that has no lobby entry, and an evaluation result for an identity that has
  no hall entry each return normally, having added one warning to the log and changed
  nothing else: no registry, no listener, nothing sent.
\<close>

theorem unknown_participant_discarded:
  "(ws \<notin> fst ` set (hall st) \<longrightarrow>
      handleClientMessage ws message now st =
        st\<lparr>effects := effects st @ [Warn ''Message from unknown client'']\<rparr>)
   \<and> ((p, s) \<notin> lobby_identity ` set (lobby st) \<longrightarrow>
      participantIdentified p s r st =
        st\<lparr>effects := effects st @ [Warn ''Unknown participant identification'']\<rparr>)
   \<and> ((ev_participantId ev, ev_sessionId ev) \<notin> hall_identity ` set (hall st) \<longrightarrow>
      solutionEvaluated ev st =
        Returned (st\<lparr>effects := effects st @
          [Warn ''Unknown participant solution evaluation'']\<rparr>))"
proof (intro conjI impI)
  assume "ws \<notin> fst ` set (hall st)"
  then have "hall_get (hall st) (Some ws) None None None = None"
    by (force simp: hall_get_def find_None_iff)
  then show "handleClientMessage ws message now st =
        st\<lparr>effects := effects st @ [Warn ''Message from unknown client'']\<rparr>"
    by (simp add: handleClientMessage_def warn_def emit_def)
next
  assume "(p, s) \<notin> lobby_identity ` set (lobby st)"
  then have "lobby_get (lobby st) None (Some p) (Some s) = None"
    by (force simp: lobby_get_def find_None_iff lobby_identity_def)
  then show "participantIdentified p s r st =
        st\<lparr>effects := effects st @ [Warn ''Unknown participant identification'']\<rparr>"
    by (simp add: participantIdentified_def warn_def emit_def)
next
  assume "(ev_participantId ev, ev_sessionId ev) \<notin> hall_identity ` set (hall st)"
  then have "hall_get (hall st) None (Some (ev_participantId ev))
      (Some (ev_sessionId ev)) None = None"
    by (force simp: hall_get_def find_None_iff hall_identity_def)
  then show "solutionEvaluated ev st =
        Returned (st\<lparr>effects := effects st @
          [Warn ''Unknown participant solution evaluation'']\<rparr>)"
    by (simp add: solutionEvaluated_def warn_def emit_def)
qed

text \<open>In the first run: a message on connection 2, which is still in the lobby; a role
  assignment for a participant nobody knows; an evaluation for the participant in the
  lobby.\<close>

theorem unknown_participant_discarded_witness:
  "handleClientMessage 2 (Solution ''x'') 5 session_state =
     session_state\<lparr>effects := effects session_state @ [Warn ''Message from unknown client'']\<rparr>
   \<and> participantIdentified ''p9'' ''s1'' Player session_state =
     session_state\<lparr>effects := effects session_state @
       [Warn ''Unknown participant identification'']\<rparr>
   \<and> solutionEvaluated
       \<lparr>ev_participantId = ''p1'', ev_sessionId = ''s1'', ev_result = ''r'', ev_error = [],
        ev_correct = True, ev_time = 3, ev_length = 1\<rparr> session_state =
     Returned (session_state\<lparr>effects := effects session_state @
       [Warn ''Unknown participant solution evaluation'']\<rparr>)"
  using unknown_participant_discarded [of 2 session_state "Solution ''x''" 5 "''p9''" "''s1''" Player
      "\<lparr>ev_participantId = ''p1'', ev_sessionId = ''s1'', ev_result = ''r'', ev_error = [],
        ev_correct = True, ev_time = 3, ev_length = 1\<rparr>"]
  by (simp add: session_state_fields lobby_identity_def hall_identity_def)

section \<open>Solution input\<close>

text \<open>
  Claim C8. A solution message from a connection that the hall resolves to an entry with
  \<open>participantId\<close> and \<open>sessionId\<close> adds exactly one request to the coordination service,
  \<open>participantInput\<close> with that session, that participant, the input of the message and the
  time of receipt, and changes nothing else. With the one message listener that the
  admission to the hall registers, this is also all that the message event does.
\<close>

theorem solution_input_forwarded:
  assumes "hall_get (hall st) (Some ws) None None None = Some (ws', participantId, sessionId, r)"
  shows "handleClientMessage ws (Solution input) now st =
           st\<lparr>effects := effects st @
             [PhoenixSend (ParticipantInput sessionId participantId input now)]\<rparr>
         \<and> (message_listeners st ws = Suc 0 \<longrightarrow>
             fireMessage ws (Solution input) now st =
               st\<lparr>effects := effects st @
                 [PhoenixSend (ParticipantInput sessionId participantId input now)]\<rparr>)"
proof -
  have h: "handleClientMessage ws (Solution input) now st =
           st\<lparr>effects := effects st @
             [PhoenixSend (ParticipantInput sessionId participantId input now)]\<rparr>"
    using assms by (simp add: handleClientMessage_def phoenix_send_def emit_def)
  then show ?thesis
    by (simp add: fireMessage_def)
qed

text \<open>In the first run the game-master on connection 1 submits an input at time 1000.\<close>

theorem solution_input_forwarded_witness:
  "handleClientMessage 1 (Solution ''42'') 1000 session_state =
     session_state\<lparr>effects := effects session_state @
       [PhoenixSend (ParticipantInput ''s1'' ''gm1'' ''42'' 1000)]\<rparr>
   \<and> step (ClientMessage 1 (Solution ''42'') 1000) session_state =
     session_state\<lparr>effects := effects session_state @
       [PhoenixSend (ParticipantInput ''s1'' ''gm1'' ''42'' 1000)]\<rparr>"
  using solution_input_forwarded [of session_state 1 1 "''gm1''" "''s1''" GameMaster "''42''" 1000]
  by (simp add: session_state_fields hall_get_def)

section \<open>Forced close\<close>

text \<open>
  \<open>rejectConnection\<close> removes all listeners of the connection and then closes it with the
  code 4500; the removal from the lobby and the removal from the hall end with exactly
  that; and in the trace of every sequence of events from the initial state every \<open>close\<close>
  has the code 4500 and comes directly after the removal of all listeners of the same
  connection.
\<close>

lemma every_close_is_guarded:
  "effects (rejectConnection ws st) = effects st @ [RemoveAllListeners ws, Close ws 4500]
   \<and> close_listeners (rejectConnection ws st) ws = []
   \<and> message_listeners (rejectConnection ws st) ws = 0
   \<and> effects (removeFromLobby ws p s st) = effects st @ [RemoveAllListeners ws, Close ws 4500]
   \<and> effects (removeFromHall ws p s r st) = effects st @ [RemoveAllListeners ws, Close ws 4500]
   \<and> closes_guarded (effects (run evs (initial thr)))"
proof -
  from grows_run [of "initial thr" evs] have "closes_guarded (effects (run evs (initial thr)))"
    by (auto simp: grows_def initial_def)
  then show ?thesis
    by (simp add: rejectConnection_def clearConnection_def removeFromLobby_def
        removeFromHall_def)
qed

text \<open>
  Claim C9. Every forced close, that of a rejected authentication included, is to remove
  the listeners and close with the code 4500, so that a client cannot tell an eviction from
  a rejected authentication. The code does so for evictions and removals, but a rejected
  authentication is no forced close at all: the exception in the \<open>catch\<close> handler of
  \<open>processNewConnection\<close> comes before \<open>rejectConnection\<close>, the state stays as it was, no
  listener is removed and no \<open>close\<close> is issued. In the first run, connection 2 evicted by
  a reconnect on connection 3 is closed with 4500, while connection 3 arriving without the
  \<open>secret\<close> cookie is left open: the two clients see different things.
\<close>

theorem auth_rejection_is_no_forced_close:
  "step (NewConnection ws None sessionCookie) st = st
   \<and> step (NewConnection ws uid None) st = st
   \<and> effects (step (NewConnection 3 (Some ''p1'') (Some ''s1'')) session_state) =
       effects session_state @
         [RemoveAllListeners 2, Close 2 4500, PhoenixSend (SessionJoin ''s1'' ''p1'')]
   \<and> effects (step (NewConnection 3 None (Some ''s1'')) session_state) = effects session_state"
proof -
  have r: "step (NewConnection ws None sessionCookie) st = st"
    "step (NewConnection ws uid None) st = st" for ws uid sessionCookie st
    by (simp_all add: processNewConnection_def verifyAuth_def split: option.splits)
  have "effects (step (NewConnection 3 (Some ''p1'') (Some ''s1'')) session_state) =
       effects session_state @
         [RemoveAllListeners 2, Close 2 4500, PhoenixSend (SessionJoin ''s1'' ''p1'')]"
    by (simp add: processNewConnection_def verifyAuth_def addToLobby_def lobby_get_def
        removeFromLobby_def rejectConnection_def clearConnection_def phoenix_send_def Let_def
        session_state_fields)
  then show ?thesis
    by (simp only: r)
qed

section \<open>The result of getProfiles\<close>

text \<open>
  Claim C10. Whatever the loader does, \<open>getProfiles\<close> resolves with an array. When the
  loader resolves with an array, the result is that array with the default profile in place
  of each falsy element, so it has the length of the loader's array, also when that is
  shorter than the list of requested identifiers.
\<close>

theorem getProfiles_always_resolves:
  "(\<exists>profiles. fst (getProfiles loadProfiles participantIds st) = Fulfilled profiles)
   \<and> fst (getProfiles (Fulfilled (ProfileArray xs)) participantIds st) =
       Fulfilled (map (\<lambda>x. case x of None \<Rightarrow> DEFAULT_PROFILE | Some q \<Rightarrow> q) xs)"
  by (auto simp: getProfiles_def split: settled.splits loaded_value.splits)

text \<open>Two identifiers requested, an array of one falsy element returned.\<close>

theorem getProfiles_always_resolves_witness:
  "fst (getProfiles (Fulfilled (ProfileArray [None])) [''a'', ''b''] session_state) =
     Fulfilled [DEFAULT_PROFILE]
   \<and> (\<exists>profiles. fst (getProfiles Rejected [''a'', ''b''] session_state) = Fulfilled profiles)"
  using getProfiles_always_resolves
      [of "Fulfilled (ProfileArray [None])" "[''a'', ''b'']" session_state "[None]"]
    getProfiles_always_resolves [of Rejected "[''a'', ''b'']" session_state "[]"]
  by simp

end
